theory Spec2Isabelle
  imports Complex_Main "HOL-Library.AList" "HOL-Library.Log_Nat" "HOL-Library.Word"
begin

section \<open>JavaScript values\<close>

text \<open>
  The values that flow through \<^verbatim>\<open>base-server-audit.js\<close>. A JavaScript number is a
  binary64 double; the model has the finite ones, each as the rational it denotes
  (no NaN, no infinity, no negative zero). An object is the list of its own
  properties in the order JavaScript enumerates them, together with the one fact
  about its prototype chain the code tests: whether it is an instance of
  \<^verbatim>\<open>HttpError\<close>. Reading a property looks at the own properties only.
\<close>

type_synonym number = rat

datatype proto = ObjectProto | HttpErrorProto

datatype jsval =
    Undefined
  | Null
  | Bool bool
  | Num number
  | Str string
  | Obj proto "(string \<times> jsval) list"

text \<open>\<^verbatim>\<open>!v\<close> is \<open>\<not> truthy v\<close>: JavaScript's ToBoolean.\<close>

fun truthy :: "jsval \<Rightarrow> bool" where
  "truthy Undefined = False"
| "truthy Null = False"
| "truthy (Bool b) = b"
| "truthy (Num x) = (x \<noteq> 0)"
| "truthy (Str s) = (s \<noteq> [])"
| "truthy (Obj p ps) = True"

fun typeof :: "jsval \<Rightarrow> string" where
  "typeof Undefined = ''undefined''"
| "typeof Null = ''object''"
| "typeof (Bool b) = ''boolean''"
| "typeof (Num x) = ''number''"
| "typeof (Str s) = ''string''"
| "typeof (Obj p ps) = ''object''"

text \<open>\<^verbatim>\<open>v instanceof HttpError\<close>.\<close>

fun instanceof_HttpError :: "jsval \<Rightarrow> bool" where
  "instanceof_HttpError (Obj HttpErrorProto ps) = True"
| "instanceof_HttpError v = False"

text \<open>
  \<^verbatim>\<open>v.k\<close>: the own property \<open>k\<close> of an object, \<^verbatim>\<open>undefined\<close> when there is
  none (also on a primitive, where the code of this file never reads a property).
\<close>

fun get_prop :: "jsval \<Rightarrow> string \<Rightarrow> jsval" where
  "get_prop (Obj p ps) k = (case map_of ps k of None \<Rightarrow> Undefined | Some v \<Rightarrow> v)"
| "get_prop v k = Undefined"

text \<open>The own properties of a value, in order (\<^verbatim>\<open>Object.entries\<close>); a primitive has none.\<close>

fun own_props :: "jsval \<Rightarrow> (string \<times> jsval) list" where
  "own_props (Obj p ps) = ps"
| "own_props v = []"

text \<open>
  \<^verbatim>\<open>v.hasOwnProperty(k)\<close>: a property that holds \<^verbatim>\<open>undefined\<close> is still a
  property of the object.
\<close>

definition has_prop :: "jsval \<Rightarrow> string \<Rightarrow> bool" where
  "has_prop v k = (k \<in> set (map fst (own_props v)))"

subsection \<open>Creating and replacing own properties\<close>

text \<open>
  JavaScript enumerates the own properties of an ordinary object with the array
  indices first, in ascending order, and the other names after them in the order of
  their creation. An array index is the canonical decimal form of an integer from 0 to
  4294967294.
\<close>

definition is_digit :: "char \<Rightarrow> bool" where
  "is_digit c = (c \<in> set ''0123456789'')"

definition digits_val :: "string \<Rightarrow> nat" where
  "digits_val s = foldl (\<lambda>a c. 10 * a + (of_char c - 48)) 0 s"

definition array_index :: "string \<Rightarrow> nat option" where
  "array_index s =
     (if s \<noteq> [] \<and> list_all is_digit s \<and> (length s = 1 \<or> hd s \<noteq> CHR ''0'') \<and>
         digits_val s < 4294967295
      then Some (digits_val s) else None)"

text \<open>A new array index goes before the first property that is not a smaller index.\<close>

fun insert_index :: "nat \<Rightarrow> string \<Rightarrow> jsval \<Rightarrow> (string \<times> jsval) list \<Rightarrow> (string \<times> jsval) list" where
  "insert_index i k v [] = [(k, v)]"
| "insert_index i k v (p # ps) =
     (case array_index (fst p) of
        Some j \<Rightarrow> if j < i then p # insert_index i k v ps else (k, v) # p # ps
      | None \<Rightarrow> (k, v) # p # ps)"

text \<open>
  Defining the own data property \<open>k\<close> with the value \<open>v\<close>: an existing property keeps
  its place and takes the value, a new one is put where the enumeration order has it.
\<close>

definition put_prop :: "string \<Rightarrow> jsval \<Rightarrow> (string \<times> jsval) list \<Rightarrow> (string \<times> jsval) list" where
  "put_prop k v ps =
     (if k \<in> set (map fst ps) then AList.update k v ps
      else (case array_index k of Some i \<Rightarrow> insert_index i k v ps | None \<Rightarrow> ps @ [(k, v)]))"

subsection \<open>Binary64 arithmetic\<close>

text \<open>
  The result of an arithmetic operation on doubles is the exact result rounded to the
  nearest double, a tie going to the even significand. A finite double is an integer
  multiple of \<^verbatim>\<open>2^-1074\<close> whose significand has at most 53 bits: \<open>round_double\<close>
  scales by \<^verbatim>\<open>2^1074\<close>, drops the \<open>k\<close> low bits that do not fit, and scales back. It
  is the rounding of binary64 for every exact result of magnitude below \<^verbatim>\<open>2^1024\<close>
  (beyond, a double overflows to an infinity); the results in this file stay below
  \<^verbatim>\<open>2^64\<close>.
\<close>

definition round_half_even :: "rat \<Rightarrow> int" where
  "round_half_even x =
     (let f = \<lfloor>x\<rfloor>; d = x - of_int f
      in if d < 1 / 2 then f else if 1 / 2 < d then f + 1 else if even f then f else f + 1)"

definition round_double :: "rat \<Rightarrow> rat" where
  "round_double x =
     (let y = \<bar>x\<bar> * 2 ^ 1074;
          k = nat (bitlen \<lfloor>y\<rfloor> - 53)
      in sgn x * (of_int (round_half_even (y / 2 ^ k)) * 2 ^ k / 2 ^ 1074))"

section \<open>Requests and responses\<close>

text \<open>
  One entry of \<^verbatim>\<open>req.timers\<close>: \<^verbatim>\<open>{name, time: [seconds, nanoseconds]}\<close>, the time in
  the format of \<^verbatim>\<open>process.hrtime\<close>: two non-negative integers. They are taken below
  \<^verbatim>\<open>2^53\<close>, where every integer is a double, so that each value of the type is exactly
  one JavaScript number.
\<close>

type_synonym safe_nat = "53 word"

record timer =
  name :: string
  time :: "safe_nat \<times> safe_nat"

text \<open>
  The fields of a request the code reads. \<open>req_method\<close> is \<^verbatim>\<open>req.method\<close> and
  \<open>req_time\<close> is \<^verbatim>\<open>req._time\<close>; \<open>timers\<close> is \<open>None\<close> when \<^verbatim>\<open>req.timers\<close> is
  absent (or otherwise falsy).
\<close>

record request =
  req_method :: string
  url :: string
  timers :: "timer list option"
  req_time :: number

section \<open>The audit logger's request serializer\<close>

text \<open>
  \<^verbatim>\<open>Math.floor((1000 * t[0]) + (t[1] / 1000000))\<close>: the product, the quotient and the
  sum are each rounded to a double; the floor of a double is exact.
\<close>

definition timer_ms :: "safe_nat \<times> safe_nat \<Rightarrow> int" where
  "timer_ms t =
     \<lfloor>round_double (round_double (1000 * of_nat (unat (fst t))) +
                    round_double (of_nat (unat (snd t)) / 1000000))\<rfloor>"

text \<open>
  The body of the \<^verbatim>\<open>forEach\<close> callback: \<^verbatim>\<open>timers[time.name] = _t\<close>, on the plain
  object \<^verbatim>\<open>timers\<close>. For the name \<^verbatim>\<open>__proto__\<close> the assignment runs the setter that
  \<^verbatim>\<open>Object.prototype\<close> provides, which ignores a number: no property is created.
\<close>

definition set_timer :: "timer \<Rightarrow> (string \<times> jsval) list \<Rightarrow> (string \<times> jsval) list" where
  "set_timer tm acc =
     (if name tm = ''__proto__'' then acc
      else put_prop (name tm) (Num (of_int (timer_ms (time tm)))) acc)"

text \<open>
  \<open>None\<close> stands for any falsy argument (\<^verbatim>\<open>undefined\<close>, \<^verbatim>\<open>null\<close>, \<^verbatim>\<open>false\<close>, ...).
\<close>

definition auditRequestSerializer :: "request option \<Rightarrow> jsval" where
  "auditRequestSerializer req =
     (case req of
        None \<Rightarrow> Bool False
      | Some r \<Rightarrow>
          (let ts = fold set_timer (case timers r of None \<Rightarrow> [] | Some l \<Rightarrow> l) []
           in Obj ObjectProto
                [(''method'', Str (req_method r)), (''url'', Str (url r)), (''timers'', Obj ObjectProto ts)]))"

section \<open>The audit logger's response serializer\<close>

text \<open>
  The argument of \<^verbatim>\<open>auditLogger\<close>, as far as the serializers read it:
  \<^verbatim>\<open>options.body\<close> (an absent property is \<open>Undefined\<close>).
\<close>

record options =
  body :: jsval

text \<open>
  The fields of a response the code reads: \<^verbatim>\<open>res.statusCode\<close>, \<^verbatim>\<open>res._body\<close>
  (\<open>res_body\<close>) and the header lookup \<^verbatim>\<open>res.get(name)\<close>.
\<close>

record response =
  statusCode :: number
  res_body :: jsval
  get :: "string \<Rightarrow> jsval"

definition auditResponseSerializer :: "options \<Rightarrow> response option \<Rightarrow> jsval" where
  "auditResponseSerializer opts res =
     (case res of
        None \<Rightarrow> Bool False
      | Some r \<Rightarrow>
          (let b =
                 (if body opts = Bool True then
                    (if instanceof_HttpError (res_body r) then get_prop (res_body r) ''body''
                     else res_body r)
                  else Undefined)
           in Obj ObjectProto [(''statusCode'', Num (statusCode r)), (''body'', b)]))"

section \<open>The audit callback\<close>

text \<open>
  What a call \<^verbatim>\<open>logger.level(fields, format, args...)\<close> hands to the logging backend.
\<close>

datatype level = Info | Error | Fatal

record 'f log_entry =
  level :: level
  log_fields :: 'f
  format :: string
  args :: "jsval list"

text \<open>The object \<^verbatim>\<open>{req: req, res: res, err: err, latency: latency}\<close> that \<^verbatim>\<open>audit\<close> logs.\<close>

record audit_obj =
  obj_req :: request
  obj_res :: response
  obj_err :: jsval
  obj_latency :: jsval

text \<open>
  \<^verbatim>\<open>audit(req, res, route, err)\<close>, as the server's \<^verbatim>\<open>after\<close> event calls it: with the
  request and the response objects. \<open>now\<close> is the value of \<^verbatim>\<open>Date.now()\<close>; the
  state is the list of entries written through the child logger, and the call
  \<^verbatim>\<open>log.info(obj, 'handled: %d', res.statusCode)\<close> appends to it. The subtraction
  is the exact one, which is what binary64 gives on timestamps that are integers of
  milliseconds.
\<close>

definition audit ::
  "number \<Rightarrow> request \<Rightarrow> response \<Rightarrow> jsval \<Rightarrow> jsval \<Rightarrow> audit_obj log_entry list
     \<Rightarrow> bool \<times> audit_obj log_entry list" where
  "audit now req res route err written =
     (let l0 = get res ''Response-Time'';
          latency = (if typeof l0 \<noteq> ''number'' then Num (now - req_time req) else l0);
          obj = \<lparr>obj_req = req, obj_res = res, obj_err = err, obj_latency = latency\<rparr>
      in (True,
          written @ [\<lparr>level = Info, log_fields = obj, format = ''handled: %d'',
                      args = [Num (statusCode res)]\<rparr>]))"

section \<open>The server bootstrapper\<close>

datatype error = TypeError string | RangeError | AssertionError

text \<open>
  The effects \<^verbatim>\<open>startServer\<close> and its handlers have on the outside, in the order they
  happen: a listening socket requested on a port, an entry written through a logger,
  a value sent as the response of a request, the process exiting with a code.
\<close>

datatype event =
    Listen jsval
  | Logged jsval "jsval option log_entry"
  | Sent response jsval
  | Exit number

text \<open>
  The process and its environment: the effects so far, the listeners registered with
  \<^verbatim>\<open>process.on\<close> (a listener is the function from its argument to the effects of one
  call), and what the framework does with the arguments of the two calls of
  \<^verbatim>\<open>startServer\<close> that can throw. \<^verbatim>\<open>restify.createServer\<close> asserts the types of its
  options and \<^verbatim>\<open>server.listen\<close> rejects a port it cannot listen on; their code is not
  in this repository, so the exception each throws for given arguments, if any, is a
  parameter.
\<close>

record world =
  trace :: "event list"
  process_on :: "(string \<times> (jsval \<Rightarrow> event list)) list"
  createServer_throws :: "jsval \<Rightarrow> jsval \<Rightarrow> error option"
  listen_throws :: "jsval \<Rightarrow> error option"

text \<open>
  The handlers of the two CORS stages and the three parser plugins; \<open>True\<close> is the
  option \<^verbatim>\<open>{mapParams: true}\<close>.
\<close>

datatype middleware =
    CorsPreflight
  | CorsActual
  | AcceptParser
  | QueryParser bool
  | BodyParser bool

text \<open>
  The server object of the framework, as far as \<^verbatim>\<open>startServer\<close> configures it: the
  options of \<^verbatim>\<open>createServer\<close>, the callbacks passed to \<^verbatim>\<open>listen\<close> (functions of
  the URL the framework resolves), the \<^verbatim>\<open>pre\<close> and \<^verbatim>\<open>use\<close> chains, the routes
  (verb and path) and the listeners registered with \<^verbatim>\<open>server.on\<close> (functions of
  the request, the response, the route and the error).
\<close>

record server =
  srv_name :: jsval
  srv_log :: jsval
  handleUncaughtExceptions :: bool
  listen_callbacks :: "(jsval \<Rightarrow> event list) list"
  pre_chain :: "middleware list"
  use_chain :: "middleware list"
  routes :: "(string \<times> string) list"
  listeners :: "(string \<times> (request \<times> response \<times> jsval \<times> jsval \<Rightarrow> event list)) list"

text \<open>
  The server that \<^verbatim>\<open>restify.createServer({name: appName, log: logger})\<close> returns when
  it does not throw. The option \<^verbatim>\<open>handleUncaughtExceptions\<close> is not passed, and the
  framework (restify 5 and later, whose \<^verbatim>\<open>restify.plugins\<close> the code uses) takes it
  as \<^verbatim>\<open>false\<close>.
\<close>

definition createServer :: "jsval \<Rightarrow> jsval \<Rightarrow> server" where
  "createServer nm lg =
     \<lparr>srv_name = nm, srv_log = lg, handleUncaughtExceptions = False, listen_callbacks = [],
      pre_chain = [], use_chain = [], routes = [], listeners = []\<rparr>"

text \<open>The callback of \<^verbatim>\<open>server.listen\<close>: \<^verbatim>\<open>logger.info('Server started %s', server.url)\<close>.\<close>

definition listenCallback :: "jsval \<Rightarrow> jsval \<Rightarrow> event list" where
  "listenCallback logger srv_url =
     [Logged logger \<lparr>level = Info, log_fields = None, format = ''Server started %s'',
                     args = [srv_url]\<rparr>]"

text \<open>
  \<^verbatim>\<open>serverUncaughtExp(req, res, route, err)\<close>:
  \<^verbatim>\<open>logger.error(err, "uncaughtException"); res.send(err)\<close>.
\<close>

definition serverUncaughtExp ::
  "jsval \<Rightarrow> request \<times> response \<times> jsval \<times> jsval \<Rightarrow> event list" where
  "serverUncaughtExp logger = (\<lambda>(req, res, route, err).
     [Logged logger \<lparr>level = Error, log_fields = Some err, format = ''uncaughtException'',
                     args = []\<rparr>,
      Sent res err])"

text \<open>
  \<^verbatim>\<open>processUncaughtExp(err)\<close>: \<^verbatim>\<open>logger.fatal(err, msg); process.exit(1)\<close>.
\<close>

definition processUncaughtExp :: "jsval \<Rightarrow> jsval \<Rightarrow> event list" where
  "processUncaughtExp logger err =
     (let msg = ''Uncaught fatal exception, process will exit now.''
      in [Logged logger \<lparr>level = Fatal, log_fields = Some err, format = msg, args = []\<rparr>,
          Exit 1])"

text \<open>\<^verbatim>\<open>_initCommonRoutes(server)\<close>: the two \<^verbatim>\<open>server.get\<close> registrations.\<close>

definition initCommonRoutes :: "server \<Rightarrow> server" where
  "initCommonRoutes srv =
     srv\<lparr>routes := routes srv @ [(''GET'', ''/_status''), (''GET'', ''/api/admin/_routes'')]\<rparr>"

text \<open>\<^verbatim>\<open>_initErrorHandler(server)\<close>: \<^verbatim>\<open>server.on\<close>, then \<^verbatim>\<open>process.on\<close>.\<close>

definition initErrorHandler :: "jsval \<Rightarrow> server \<Rightarrow> world \<Rightarrow> server \<times> world" where
  "initErrorHandler logger srv w =
     (srv\<lparr>listeners := listeners srv @ [(''uncaughtException'', serverUncaughtExp logger)]\<rparr>,
      w\<lparr>process_on := process_on w @ [(''uncaughtException'', processUncaughtExp logger)]\<rparr>)"

text \<open>
  \<^verbatim>\<open>startServer(appName, port, logger)\<close>. A \<^verbatim>\<open>throw\<close> is the result \<open>Inl\<close>, with
  the world as it was when the exception left the function; an exception of
  \<^verbatim>\<open>createServer\<close> or \<^verbatim>\<open>listen\<close> leaves it as the guards' own exceptions do.
\<close>

definition startServer :: "jsval \<Rightarrow> jsval \<Rightarrow> jsval \<Rightarrow> world \<Rightarrow> (error + server) \<times> world" where
  "startServer appName port logger w =
     (if \<not> truthy appName then
        (Inl (TypeError ''Require parameter appName in startServer(appName,port,logger)''), w)
      else if \<not> truthy logger then
        (Inl (TypeError ''Require parameter logger in startServer(appName,port,logger)''), w)
      else if \<not> truthy port then
        (Inl (TypeError ''Require parameter port in startServer(appName,port,logger)''), w)
      else
        (case createServer_throws w appName logger of
           Some e \<Rightarrow> (Inl e, w)
         | None \<Rightarrow>
            (let s0 = createServer appName logger
             in case listen_throws w port of
                  Some e \<Rightarrow> (Inl e, w)
                | None \<Rightarrow>
                   (let s1 = s0\<lparr>listen_callbacks := listen_callbacks s0 @ [listenCallback logger]\<rparr>;
                        w1 = w\<lparr>trace := trace w @ [Listen port]\<rparr>;
                        s2 = s1\<lparr>pre_chain := pre_chain s1 @ [CorsPreflight]\<rparr>;
                        s3 = s2\<lparr>use_chain := use_chain s2 @ [CorsActual]\<rparr>;
                        s4 = s3\<lparr>use_chain := use_chain s3 @ [AcceptParser]\<rparr>;
                        s5 = s4\<lparr>use_chain := use_chain s4 @ [QueryParser True]\<rparr>;
                        s6 = s5\<lparr>use_chain := use_chain s5 @ [BodyParser True]\<rparr>;
                        s7 = initCommonRoutes s6;
                        (s8, w2) = initErrorHandler logger s7 w1
                    in (Inr s8, w2)))))"

subsection \<open>An exception that no handler catches\<close>

text \<open>
  Node calls the listeners that the process has for \<^verbatim>\<open>uncaughtException\<close>, in the
  order of their registration; with no listener it exits with the code 1. Nothing runs
  after \<^verbatim>\<open>process.exit\<close>.
\<close>

fun is_exit :: "event \<Rightarrow> bool" where
  "is_exit (Exit c) = True"
| "is_exit e = False"

fun until_exit :: "event list \<Rightarrow> event list" where
  "until_exit [] = []"
| "until_exit (e # es) = (if is_exit e then [e] else e # until_exit es)"

definition process_uncaughtException :: "world \<Rightarrow> jsval \<Rightarrow> event list" where
  "process_uncaughtException w err =
     (case map snd (filter (\<lambda>p. fst p = ''uncaughtException'') (process_on w)) of
        [] \<Rightarrow> [Exit 1]
      | hs \<Rightarrow> until_exit (concat (map (\<lambda>h. h err) hs)))"

text \<open>
  A route handler throws \<open>err\<close> while the server processes a request. The framework
  catches the exception and emits \<^verbatim>\<open>uncaughtException\<close> on the server only when the
  server was created with \<^verbatim>\<open>handleUncaughtExceptions: true\<close>; otherwise the exception
  is an uncaught exception of the process. The result is \<open>None\<close> where the framework
  answers with a listener of its own (the option set and no listener registered):
  that listener is not part of the model.
\<close>

definition handler_throws ::
  "server \<Rightarrow> world \<Rightarrow> request \<times> response \<times> jsval \<times> jsval \<Rightarrow> event list option" where
  "handler_throws srv w = (\<lambda>(req, res, route, err).
     if handleUncaughtExceptions srv then
       (case map snd (filter (\<lambda>p. fst p = ''uncaughtException'') (listeners srv)) of
          [] \<Rightarrow> None
        | hs \<Rightarrow> Some (concat (map (\<lambda>h. h (req, res, route, err)) hs)))
     else Some (process_uncaughtException w err))"

subsection \<open>Two environments\<close>

text \<open>
  A process that has done nothing yet, with a framework that accepts the arguments it
  is given.
\<close>

definition quiet_world :: world where
  "quiet_world =
     \<lparr>trace = [], process_on = [], createServer_throws = (\<lambda>nm lg. None),
      listen_throws = (\<lambda>p. None)\<rparr>"

text \<open>
  The same with the check Node makes of a numeric port: an integer from 0 to 65535, or
  \<^verbatim>\<open>listen\<close> throws a \<^verbatim>\<open>RangeError\<close>. A port that is not a number is accepted by this
  environment.
\<close>

definition port_checking_world :: world where
  "port_checking_world =
     quiet_world\<lparr>listen_throws :=
       (\<lambda>p. case p of
              Num x \<Rightarrow> if of_int \<lfloor>x\<rfloor> = x \<and> 0 \<le> x \<and> x \<le> 65535 then None else Some RangeError
            | _ \<Rightarrow> None)\<rparr>"

section \<open>Facts about the building blocks\<close>

subsection \<open>Own properties\<close>

lemma keys_insert_index:
  "set (map fst (insert_index i k v ps)) = insert k (set (map fst ps))"
  by (induction ps) (auto split: option.splits)

lemma distinct_insert_index:
  "k \<notin> set (map fst ps) \<Longrightarrow> distinct (map fst ps) \<Longrightarrow> distinct (map fst (insert_index i k v ps))"
proof (induction ps)
  case Nil
  then show ?case by simp
next
  case (Cons p ps)
  have "fst p \<notin> set (map fst (insert_index i k v ps))"
    using Cons.prems unfolding keys_insert_index by auto
  with Cons show ?case by (auto split: option.splits)
qed

lemma map_of_insert_index:
  "k \<notin> set (map fst ps) \<Longrightarrow> map_of (insert_index i k v ps) = (map_of ps)(k \<mapsto> v)"
  by (induction ps) (auto split: option.splits simp: fun_upd_twist)

lemma keys_put_prop: "set (map fst (put_prop k v ps)) = insert k (set (map fst ps))"
  unfolding put_prop_def
  by (auto simp: update_keys keys_insert_index simp del: set_map split: option.splits)

lemma distinct_put_prop:
  "distinct (map fst ps) \<Longrightarrow> distinct (map fst (put_prop k v ps))"
  unfolding put_prop_def
  by (auto simp: distinct_update distinct_insert_index simp del: set_map split: option.splits)

lemma map_of_snoc:
  "k \<notin> set (map fst ps) \<Longrightarrow> map_of (ps @ [(k, v)]) = (map_of ps)(k \<mapsto> v)"
  by (induction ps) (auto simp: fun_upd_twist)

lemma map_of_put_prop: "map_of (put_prop k v ps) = (map_of ps)(k \<mapsto> v)"
  unfolding put_prop_def
  by (auto simp: update_conv' map_of_insert_index map_of_snoc
        simp del: set_map map_of_append split: option.splits)

lemma keys_set_timer:
  "set (map fst (set_timer t acc)) =
     (if name t = ''__proto__'' then set (map fst acc) else insert (name t) (set (map fst acc)))"
  by (simp add: set_timer_def keys_put_prop del: set_map)

lemma keys_fold_set_timer:
  "set (map fst (fold set_timer ts acc)) = (name ` set ts - {''__proto__''}) \<union> set (map fst acc)"
  by (induction ts arbitrary: acc) (auto simp: keys_set_timer simp del: set_map)

lemma distinct_fold_set_timer:
  "distinct (map fst acc) \<Longrightarrow> distinct (map fst (fold set_timer ts acc))"
  by (induction ts arbitrary: acc) (auto simp: set_timer_def distinct_put_prop simp del: set_map)

lemma map_of_set_timer:
  "name t \<noteq> ''__proto__'' \<Longrightarrow>
   map_of (set_timer t acc) = (map_of acc)(name t \<mapsto> Num (of_int (timer_ms (time t))))"
  by (simp add: set_timer_def map_of_put_prop)

lemma map_of_set_timer_other:
  "name t \<noteq> k \<Longrightarrow> map_of (set_timer t acc) k = map_of acc k"
  by (simp add: set_timer_def map_of_put_prop)

lemma map_of_fold_absent:
  "k \<notin> name ` set ts \<Longrightarrow> map_of (fold set_timer ts acc) k = map_of acc k"
  by (induction ts arbitrary: acc) (auto simp: map_of_set_timer_other)

lemma map_of_fold_last:
  "k \<notin> name ` set post \<Longrightarrow> name t = k \<Longrightarrow> k \<noteq> ''__proto__'' \<Longrightarrow>
   map_of (fold set_timer (pre @ t # post) acc) k = Some (Num (of_int (timer_ms (time t))))"
  by (simp add: map_of_fold_absent map_of_set_timer)

lemma count_key_distinct:
  "distinct (map fst ps) \<Longrightarrow> k \<in> set (map fst ps) \<Longrightarrow> length (filter (\<lambda>p. fst p = k) ps) = 1"
  by (induction ps) (force simp: filter_empty_conv)+

lemma size_prop: "map_of ps k = Some v \<Longrightarrow> size v < size (Obj p ps)"
  by (induction ps) (auto split: if_splits)

lemma typeof_number: "typeof v = ''number'' \<longleftrightarrow> (\<exists>x. v = Num x)"
  by (cases v) auto

lemma timers_of_serialized:
  "get_prop (auditRequestSerializer (Some r)) ''timers'' =
     Obj ObjectProto (fold set_timer (case timers r of None \<Rightarrow> [] | Some l \<Rightarrow> l) [])"
  by (simp add: auditRequestSerializer_def)

subsection \<open>Rounding\<close>

lemma round_half_even_error: "\<bar>of_int (round_half_even x) - x\<bar> \<le> 1 / 2"
proof -
  have "of_int \<lfloor>x\<rfloor> \<le> x" "x < of_int \<lfloor>x\<rfloor> + 1" by linarith+
  then show ?thesis
    unfolding round_half_even_def Let_def by (auto simp: abs_le_iff)
qed

lemma round_half_even_of_int: "round_half_even (of_int k) = k"
  by (simp add: round_half_even_def)

text \<open>The number of low bits dropped, for a positive argument below a power of two.\<close>

lemma dropped_bits_le:
  fixes y :: rat
  assumes "y < 2 ^ (m + 53)"
  shows "nat (bitlen \<lfloor>y\<rfloor> - 53) \<le> m"
proof -
  have "\<lfloor>y\<rfloor> < 2 ^ (m + 53)"
    using assms by (simp add: floor_less_iff)
  then have "bitlen \<lfloor>y\<rfloor> \<le> int (m + 53)"
    unfolding bitlen_le_iff_power by (simp only: nat_int) simp
  then show ?thesis by simp
qed

lemma round_scaled_error:
  fixes y :: rat and p :: rat
  assumes "0 < p"
  shows "\<bar>of_int (round_half_even (y / 2 ^ k)) * 2 ^ k / p - y / p\<bar> \<le> 2 ^ k / (2 * p)"
proof -
  have "\<bar>of_int (round_half_even (y / 2 ^ k)) - y / 2 ^ k\<bar> \<le> 1 / 2"
    by (rule round_half_even_error)
  then have "\<bar>of_int (round_half_even (y / 2 ^ k)) - y / 2 ^ k\<bar> * (2 ^ k / p) \<le> 1 / 2 * (2 ^ k / p)"
    using assms by (intro mult_right_mono) auto
  moreover have "\<bar>of_int (round_half_even (y / 2 ^ k)) - y / 2 ^ k\<bar> * (2 ^ k / p) =
      \<bar>of_int (round_half_even (y / 2 ^ k)) * 2 ^ k / p - y / p\<bar>"
  proof -
    have "0 \<le> (2::rat) ^ k / p" using assms by simp
    then have "\<bar>of_int (round_half_even (y / 2 ^ k)) - y / 2 ^ k\<bar> * (2 ^ k / p) =
        \<bar>(of_int (round_half_even (y / 2 ^ k)) - y / 2 ^ k) * (2 ^ k / p)\<bar>"
      by (simp only: abs_mult abs_of_nonneg)
    also have "(of_int (round_half_even (y / 2 ^ k)) - y / 2 ^ k) * (2 ^ k / p) =
        of_int (round_half_even (y / 2 ^ k)) * 2 ^ k / p - y / p"
      by (simp add: left_diff_distrib diff_divide_distrib)
    finally show ?thesis .
  qed
  ultimately show ?thesis by simp
qed

lemma round_double_pos:
  "0 < x \<Longrightarrow> round_double x =
     of_int (round_half_even (x * 2 ^ 1074 / 2 ^ nat (bitlen \<lfloor>x * 2 ^ 1074\<rfloor> - 53))) *
       2 ^ nat (bitlen \<lfloor>x * 2 ^ 1074\<rfloor> - 53) / 2 ^ 1074"
  by (simp add: round_double_def Let_def del: power_numeral)

lemma round_double_error:
  fixes m :: nat
  assumes "0 < x" and "x < 2 ^ m"
  shows "\<bar>round_double x - x\<bar> \<le> 2 ^ m / 2 ^ 54"
proof -
  define p :: rat where "p = 2 ^ 1074"
  define k where "k = nat (bitlen \<lfloor>x * p\<rfloor> - 53)"
  have p: "0 < p" by (simp add: p_def)
  have "x * p < 2 ^ m * p" using assms(2) p by simp
  also have "2 ^ m * p = 2 ^ ((m + 1021) + 53)"
    unfolding p_def by (simp only: power_add [symmetric]) simp
  finally have "k \<le> m + 1021"
    unfolding k_def by (rule dropped_bits_le)
  then have pk: "(2::rat) ^ k \<le> 2 ^ (m + 1021)" by simp
  have rd: "round_double x = of_int (round_half_even (x * p / 2 ^ k)) * 2 ^ k / p"
    unfolding p_def k_def using assms(1) by (rule round_double_pos)
  have "\<bar>of_int (round_half_even (x * p / 2 ^ k)) * 2 ^ k / p - x * p / p\<bar> \<le> 2 ^ k / (2 * p)"
    using p by (rule round_scaled_error)
  then have "\<bar>round_double x - x\<bar> \<le> 2 ^ k / (2 * p)"
    using p by (simp add: rd)
  also have "2 ^ k / (2 * p) \<le> 2 ^ (m + 1021) / (2 * p)"
    using pk p by (simp add: divide_right_mono)
  also have "2 ^ (m + 1021) / (2 * p) = 2 ^ m / 2 ^ 54"
  proof -
    have "2 * p = 2 ^ 54 * 2 ^ 1021"
      unfolding p_def by (simp only: power_add [symmetric] power_Suc [symmetric]) simp
    then show ?thesis by (simp add: power_add)
  qed
  finally show ?thesis .
qed

lemma round_double_of_nat:
  assumes "n < 2 ^ 53"
  shows "round_double (of_nat n) = of_nat n"
proof (cases "n = 0")
  case True
  then show ?thesis by (simp add: round_double_def)
next
  case False
  define p :: rat where "p = 2 ^ 1074"
  define k where "k = nat (bitlen \<lfloor>of_nat n * p\<rfloor> - 53)"
  have "of_nat n * p < 2 ^ 53 * p"
    using assms by (simp add: p_def)
  also have "2 ^ 53 * p = 2 ^ (1074 + 53)"
    unfolding p_def by (simp only: power_add [symmetric]) simp
  finally have k: "k \<le> 1074"
    unfolding k_def by (rule dropped_bits_le)
  then have pk: "p = 2 ^ (1074 - k) * 2 ^ k"
    unfolding p_def by (simp only: power_add [symmetric]) simp
  have "of_nat n * p / 2 ^ k = of_int (int n * 2 ^ (1074 - k))"
    by (simp add: pk)
  then have "round_half_even (of_nat n * p / 2 ^ k) = int n * 2 ^ (1074 - k)"
    by (simp only: round_half_even_of_int)
  moreover have "round_double (of_nat n) =
      of_int (round_half_even (of_nat n * p / 2 ^ k)) * 2 ^ k / p"
    unfolding p_def k_def using False by (intro round_double_pos) simp
  ultimately show ?thesis by (simp add: pk)
qed

text \<open>Within one binade the rounding is to a multiple of a known unit.\<close>

lemma round_double_binade:
  fixes j :: nat
  assumes lo: "2 ^ 52 \<le> x * 2 ^ j" and hi: "x * 2 ^ j < 2 ^ 53" and j: "j \<le> 1074"
  shows "round_double x = of_int (round_half_even (x * 2 ^ j)) / 2 ^ j"
proof -
  define p :: rat where "p = 2 ^ 1074"
  define d where "d = 1074 - j"
  have pj: "p = 2 ^ j * 2 ^ d"
    unfolding p_def d_def using j by (simp only: power_add [symmetric]) simp
  have "(0::rat) < 2 ^ 52" by simp
  with lo have "0 < x * 2 ^ j" by linarith
  then have x: "0 < x" by (simp add: zero_less_mult_iff)
  have Y: "x * p = x * 2 ^ j * 2 ^ d" by (simp add: pj)
  have "2 ^ 52 * 2 ^ d \<le> x * 2 ^ j * (2::rat) ^ d"
    using lo by (intro mult_right_mono) auto
  then have "(of_int (2 ^ (52 + d)) :: rat) \<le> x * p"
    by (simp add: Y power_add)
  then have fl: "2 ^ (52 + d) \<le> \<lfloor>x * p\<rfloor>"
    by (simp only: le_floor_iff)
  have "x * 2 ^ j * (2::rat) ^ d < 2 ^ 53 * 2 ^ d"
    using hi by (intro mult_strict_right_mono) auto
  also have "(2::rat) ^ 53 * 2 ^ d = 2 ^ (d + 53)"
    by (simp only: power_add mult.commute)
  finally have "x * p < 2 ^ (d + 53)"
    by (simp only: Y)
  then have k1: "nat (bitlen \<lfloor>x * p\<rfloor> - 53) \<le> d"
    by (rule dropped_bits_le)
  have "int (d + 53) \<le> bitlen \<lfloor>x * p\<rfloor>"
    unfolding bitlen_ge_iff_power using fl by (simp add: nat_add_distrib add.commute)
  then have k2: "d \<le> nat (bitlen \<lfloor>x * p\<rfloor> - 53)" by simp
  from k1 k2 have k: "nat (bitlen \<lfloor>x * p\<rfloor> - 53) = d" by simp
  have "round_double x = of_int (round_half_even (x * p / 2 ^ d)) * 2 ^ d / p"
    using round_double_pos [OF x] unfolding p_def [symmetric] k .
  also have "x * p / 2 ^ d = x * 2 ^ j" by (simp add: Y)
  also have "of_int (round_half_even (x * 2 ^ j)) * 2 ^ d / p =
      of_int (round_half_even (x * 2 ^ j)) / 2 ^ j"
    by (simp add: pj)
  finally show ?thesis .
qed


text \<open>
  Below 17179869 seconds the three roundings of the conversion do not reach the floor:
  the quotient is within \<^verbatim>\<open>2^-44\<close> of the exact one, the sum is below \<^verbatim>\<open>2^34\<close> and
  so within \<^verbatim>\<open>2^-20\<close> of the exact one, and a fraction that is not zero keeps the
  distance \<^verbatim>\<open>10^-6\<close> from the integers.
\<close>

lemma ms_exact_nat:
  fixes a b :: nat
  assumes a: "a < 17179869" and b: "b < 1000000000"
  shows "\<lfloor>round_double (round_double (1000 * of_nat a) + round_double (of_nat b / 1000000))\<rfloor> =
         \<lfloor>(of_nat a * 1000 + of_nat b / 1000000 :: rat)\<rfloor>"
proof -
  define q where "q = b div 1000000"
  define r where "r = b mod 1000000"
  define y :: rat where "y = of_nat b / 1000000"
  define N where "N = 1000 * a + q"
  have bq: "b = q * 1000000 + r" by (simp add: q_def r_def)
  have r: "r < 1000000" by (simp add: r_def)
  have q: "q < 1000" using b by (simp add: q_def)
  have y: "y = of_nat q + of_nat r / 1000000" by (simp add: y_def bq)
  have A: "round_double (1000 * of_nat a) = of_nat (1000 * a)"
  proof -
    have "1000 * a < 2 ^ 53" using a by simp
    then have "round_double (of_nat (1000 * a)) = of_nat (1000 * a)"
      by (rule round_double_of_nat)
    then show ?thesis by simp
  qed
  have r1: "of_nat r / 1000000 < (1::rat)" using r by simp
  have r0: "0 \<le> of_nat r / (1000000::rat)" by simp
  have exact: "\<lfloor>(of_nat a * 1000 + of_nat b / 1000000 :: rat)\<rfloor> = int N"
  proof (rule floor_unique)
    show "of_int (int N) \<le> (of_nat a * 1000 + of_nat b / 1000000 :: rat)"
      using r0 y unfolding y_def N_def by simp
    show "(of_nat a * 1000 + of_nat b / 1000000 :: rat) < of_int (int N) + 1"
      using r1 y unfolding y_def N_def by simp
  qed
  have "\<lfloor>round_double (of_nat (1000 * a) + round_double y)\<rfloor> = int N"
  proof (cases "r = 0")
    case True
    then have "y = of_nat q" by (simp add: y)
    moreover have "round_double (of_nat q) = of_nat q"
      using q by (intro round_double_of_nat) simp
    moreover have "round_double (of_nat (1000 * a + q)) = of_nat (1000 * a + q)"
      using a q by (intro round_double_of_nat) simp
    ultimately have "round_double (of_nat (1000 * a) + round_double y) = of_nat N"
      by (simp add: N_def)
    then show ?thesis by simp
  next
    case False
    then have "1 \<le> r" by simp
    then have "(of_nat 1 :: rat) \<le> of_nat r" by (simp only: of_nat_le_iff)
    then have rlo: "1 / 1000000 \<le> of_nat r / (1000000::rat)" by simp
    have "r \<le> 999999" using r by simp
    then have "(of_nat r :: rat) \<le> of_nat 999999" by (simp only: of_nat_le_iff)
    then have rhi: "of_nat r / (1000000::rat) \<le> 999999 / 1000000" by simp
    have "q \<le> 999" using q by simp
    then have "(of_nat q :: rat) \<le> of_nat 999" by (simp only: of_nat_le_iff)
    then have qhi: "(of_nat q :: rat) \<le> 999" by simp
    have "1000 * a \<le> 17179868000" using a by simp
    then have "(of_nat (1000 * a) :: rat) \<le> of_nat 17179868000" by (simp only: of_nat_le_iff)
    then have ahi: "(of_nat (1000 * a) :: rat) \<le> 17179868000" by simp
    have alo: "(0::rat) \<le> of_nat (1000 * a)" by simp
    have qlo: "(0::rat) \<le> of_nat q" by simp
    have ypos: "0 < y" using rlo qlo unfolding y by linarith
    have "y < 1024" using rhi qhi unfolding y by linarith
    then have "y < 2 ^ 10" by simp
    with ypos have "\<bar>round_double y - y\<bar> \<le> 2 ^ 10 / 2 ^ 54"
      by (rule round_double_error)
    then have e1: "\<bar>round_double y - y\<bar> \<le> 1 / 17592186044416" by simp
    define z where "z = of_nat (1000 * a) + round_double y"
    have zpos: "0 < z" using e1 rlo qlo alo unfolding z_def y by linarith
    have "z < 17179869184" using e1 rhi qhi ahi unfolding z_def y by linarith
    then have "z < 2 ^ 34" by simp
    with zpos have "\<bar>round_double z - z\<bar> \<le> 2 ^ 34 / 2 ^ 54"
      by (rule round_double_error)
    then have e2: "\<bar>round_double z - z\<bar> \<le> 1 / 1048576" by simp
    have N: "(of_int (int N) :: rat) = of_nat (1000 * a) + of_nat q"
      by (simp add: N_def)
    have "\<lfloor>round_double z\<rfloor> = int N"
    proof (rule floor_unique)
      show "of_int (int N) \<le> round_double z"
        using e1 e2 rlo unfolding N z_def y by linarith
      show "round_double z < of_int (int N) + 1"
        using e1 e2 rhi unfolding N z_def y by linarith
    qed
    then show ?thesis by (simp only: z_def)
  qed
  then show ?thesis by (simp add: A exact y_def)
qed

lemma timer_ms_exact:
  "unat s < 17179869 \<Longrightarrow> unat n < 1000000000 \<Longrightarrow>
   timer_ms (s, n) = \<lfloor>(of_nat (unat s) * 1000 + of_nat (unat n) / 1000000 :: rat)\<rfloor>"
  unfolding timer_ms_def fst_conv snd_conv by (rule ms_exact_nat)

text \<open>From 17179869 seconds on the sum can round up to the next integer.\<close>

text \<open>From 17179869 seconds on the sum can round up to the next integer.\<close>

lemma timer_ms_rounds_up: "timer_ms (17179870, 999999999) = 17179871000"
proof -
  have s: "unat (17179870 :: safe_nat) = 17179870" and n: "unat (999999999 :: safe_nat) = 999999999"
    by simp_all
  have A: "round_double (1000 * of_nat 17179870) = 17179870000"
  proof -
    have "round_double (of_nat 17179870000) = of_nat 17179870000"
      by (rule round_double_of_nat) simp
    then show ?thesis by simp
  qed
  have r1: "round_half_even (999999999 / 1000000 * 2 ^ 43) = 8796093013411907"
    by code_simp
  have B: "round_double (of_nat 999999999 / 1000000) = 8796093013411907 / 2 ^ 43"
  proof -
    have "round_double (999999999 / 1000000) =
        of_int (round_half_even (999999999 / 1000000 * 2 ^ 43)) / 2 ^ 43"
      by (rule round_double_binade) simp_all
    then show ?thesis by (simp only: r1) simp
  qed
  have r2: "round_half_even ((17179870000 + 8796093013411907 / 2 ^ 43) * 2 ^ 18) = 4503600103424000"
    by code_simp
  have C: "round_double (17179870000 + 8796093013411907 / 2 ^ 43) = 17179871000"
  proof -
    have "round_double (17179870000 + 8796093013411907 / 2 ^ 43) =
        of_int (round_half_even ((17179870000 + 8796093013411907 / 2 ^ 43) * 2 ^ 18)) / 2 ^ 18"
      by (rule round_double_binade) simp_all
    then show ?thesis by (simp only: r2) simp
  qed
  show ?thesis
    unfolding timer_ms_def fst_conv snd_conv s n A B C by simp
qed

subsection \<open>The bootstrapper\<close>

lemma startServer_ok:
  "truthy appName \<Longrightarrow> truthy logger \<Longrightarrow> truthy port \<Longrightarrow>
   createServer_throws w appName logger = None \<Longrightarrow> listen_throws w port = None \<Longrightarrow>
   startServer appName port logger w =
     (Inr \<lparr>srv_name = appName, srv_log = logger, handleUncaughtExceptions = False,
           listen_callbacks = [listenCallback logger],
           pre_chain = [CorsPreflight],
           use_chain = [CorsActual, AcceptParser, QueryParser True, BodyParser True],
           routes = [(''GET'', ''/_status''), (''GET'', ''/api/admin/_routes'')],
           listeners = [(''uncaughtException'', serverUncaughtExp logger)]\<rparr>,
      w\<lparr>trace := trace w @ [Listen port],
        process_on := process_on w @ [(''uncaughtException'', processUncaughtExp logger)]\<rparr>)"
  by (simp add: startServer_def createServer_def initCommonRoutes_def initErrorHandler_def)

lemma startServer_Inr:
  assumes "startServer appName port logger w = (Inr srv, w')"
  shows "truthy appName \<and> truthy logger \<and> truthy port \<and>
         createServer_throws w appName logger = None \<and> listen_throws w port = None"
proof -
  from assms have t: "truthy appName" "truthy logger" "truthy port"
    by (auto simp: startServer_def split: if_splits)
  from assms t have c: "createServer_throws w appName logger = None"
    by (cases "createServer_throws w appName logger") (auto simp: startServer_def)
  from assms t c have "listen_throws w port = None"
    by (cases "listen_throws w port") (auto simp: startServer_def)
  with t c show ?thesis by simp
qed

section \<open>The request serializer\<close>

text \<open>
  Claim C1, as stated: for each sample of the timers list, \<^verbatim>\<open>timers[name]\<close> is
  \<open>\<lfloor>s * 1000 + n / 1000000\<rfloor>\<close>. Two samples that share a name and differ in their time
  refute it: for the list \<^verbatim>\<open>[{name: 'parse', time: [1, 0]}, {name: 'parse', time: [2, 0]}]\<close>
  the second assignment replaces the first, and \<^verbatim>\<open>timers.parse\<close> is 2000, not the 1000
  of the first sample.
\<close>

theorem auditRequestSerializer_timers_counterexample:
  "get_prop (get_prop (auditRequestSerializer (Some \<lparr>req_method = ''GET'', url = ''/a'',
       timers = Some [\<lparr>name = ''parse'', time = (1, 0)\<rparr>,
                      \<lparr>name = ''parse'', time = (2, 0)\<rparr>], req_time = 5\<rparr>)) ''timers'') ''parse''
     \<noteq> Num (of_int \<lfloor>(1::rat) * 1000 + 0 / 1000000\<rfloor>)"
proof -
  let ?p = "\<lparr>name = ''parse'', time = (1, 0)\<rparr>"
  let ?q = "\<lparr>name = ''parse'', time = (2, 0)\<rparr>"
  have "map_of (fold set_timer ([?p] @ ?q # []) []) ''parse'' =
      Some (Num (of_int (timer_ms (time ?q))))"
    by (rule map_of_fold_last) simp_all
  moreover have "timer_ms (2, 0) = 2000"
    by (subst timer_ms_exact) simp_all
  ultimately show ?thesis by (simp add: timers_of_serialized)
qed

text \<open>
  Claim C1, amended: for every request with a timers list, every phase name of the
  list other than \<^verbatim>\<open>__proto__\<close> is a property of the serialized \<^verbatim>\<open>timers\<close> object;
  and for each sample \<^verbatim>\<open>[s, n]\<close> with \<open>s < 17179869\<close> and \<open>n < 1000000000\<close>, under a
  name other than \<^verbatim>\<open>__proto__\<close> that no later sample of the list has, \<^verbatim>\<open>timers[name]\<close>
  is \<open>\<lfloor>s * 1000 + n / 1000000\<rfloor>\<close>.
\<close>

theorem auditRequestSerializer_timers:
  assumes "timers r = Some ts"
  shows "(\<forall>t \<in> set ts. name t \<noteq> ''__proto__'' \<longrightarrow>
            has_prop (get_prop (auditRequestSerializer (Some r)) ''timers'') (name t)) \<and>
         (\<forall>pre t post. ts = pre @ t # post \<and> name t \<notin> name ` set post \<and>
             name t \<noteq> ''__proto__'' \<and>
             unat (fst (time t)) < 17179869 \<and> unat (snd (time t)) < 1000000000 \<longrightarrow>
            get_prop (get_prop (auditRequestSerializer (Some r)) ''timers'') (name t) =
              Num (of_int \<lfloor>(of_nat (unat (fst (time t))) * 1000 +
                               of_nat (unat (snd (time t))) / 1000000 :: rat)\<rfloor>))"
proof (intro conjI ballI allI impI)
  fix t assume "t \<in> set ts" and "name t \<noteq> ''__proto__''"
  then have "name t \<in> set (map fst (fold set_timer ts []))"
    unfolding keys_fold_set_timer by simp
  then show "has_prop (get_prop (auditRequestSerializer (Some r)) ''timers'') (name t)"
    using assms by (simp add: timers_of_serialized has_prop_def del: set_map)
next
  fix pre t post
  assume h: "ts = pre @ t # post \<and> name t \<notin> name ` set post \<and> name t \<noteq> ''__proto__'' \<and>
    unat (fst (time t)) < 17179869 \<and> unat (snd (time t)) < 1000000000"
  then have "map_of (fold set_timer ts []) (name t) = Some (Num (of_int (timer_ms (time t))))"
    using map_of_fold_last [of "name t" post t pre "[]"] by simp
  moreover have "timer_ms (time t) =
      \<lfloor>(of_nat (unat (fst (time t))) * 1000 + of_nat (unat (snd (time t))) / 1000000 :: rat)\<rfloor>"
    using h timer_ms_exact [of "fst (time t)" "snd (time t)"] by simp
  ultimately show "get_prop (get_prop (auditRequestSerializer (Some r)) ''timers'') (name t) =
      Num (of_int \<lfloor>(of_nat (unat (fst (time t))) * 1000 +
                       of_nat (unat (snd (time t))) / 1000000 :: rat)\<rfloor>)"
    using assms by (simp add: timers_of_serialized)
qed

theorem auditRequestSerializer_timers_witness:
  "has_prop (get_prop (auditRequestSerializer (Some \<lparr>req_method = ''GET'', url = ''/a'',
       timers = Some [\<lparr>name = ''parse'', time = (1, 500000000)\<rparr>,
                      \<lparr>name = ''route'', time = (0, 999999)\<rparr>], req_time = 5\<rparr>)) ''timers'') ''parse'' \<and>
   get_prop (get_prop (auditRequestSerializer (Some \<lparr>req_method = ''GET'', url = ''/a'',
       timers = Some [\<lparr>name = ''parse'', time = (1, 500000000)\<rparr>,
                      \<lparr>name = ''route'', time = (0, 999999)\<rparr>], req_time = 5\<rparr>)) ''timers'') ''route'' = Num 0"
proof -
  let ?p = "\<lparr>name = ''parse'', time = (1, 500000000)\<rparr>"
  let ?q = "\<lparr>name = ''route'', time = (0, 999999)\<rparr>"
  let ?r = "\<lparr>req_method = ''GET'', url = ''/a'', timers = Some [?p, ?q], req_time = 5\<rparr>"
  have t: "timers ?r = Some [?p, ?q]" by simp
  have fl: "\<lfloor>(999999::rat) / 1000000\<rfloor> = 0" by code_simp
  note w = auditRequestSerializer_timers [OF t]
  have a: "has_prop (get_prop (auditRequestSerializer (Some ?r)) ''timers'') (name ?p)"
    by (rule w [THEN conjunct1, THEN bspec, THEN mp]) simp_all
  have "get_prop (get_prop (auditRequestSerializer (Some ?r)) ''timers'') (name ?q) =
        Num (of_int \<lfloor>(of_nat (unat (fst (time ?q))) * 1000 +
                         of_nat (unat (snd (time ?q))) / 1000000 :: rat)\<rfloor>)"
    by (rule w [THEN conjunct2, THEN spec, THEN spec, THEN spec, THEN mp, of "[?p]" ?q "[]"]) simp
  then have b: "get_prop (get_prop (auditRequestSerializer (Some ?r)) ''timers'') ''route'' = Num 0"
    by (simp add: fl)
  from a b show ?thesis by simp
qed

text \<open>
  A repeated name is overwritten: every name of the list but \<^verbatim>\<open>__proto__\<close> is a
  property of the serialized \<^verbatim>\<open>timers\<close> object exactly once, and its value is the
  conversion of the last sample of that name.
\<close>

lemma timers_last_sample_wins:
  assumes "timers r = Some ts" and "k \<noteq> ''__proto__''" and "\<exists>t \<in> set ts. name t = k"
  shows "length (filter (\<lambda>p. fst p = k)
            (own_props (get_prop (auditRequestSerializer (Some r)) ''timers''))) = 1 \<and>
         get_prop (get_prop (auditRequestSerializer (Some r)) ''timers'') k =
            Num (of_int (timer_ms (time (last (filter (\<lambda>t. name t = k) ts)))))"
proof -
  from assms(3) obtain pre t post where
    sp: "ts = pre @ t # post" "name t = k" "\<forall>z \<in> set post. name z \<noteq> k"
    using split_list_last_prop [of ts "\<lambda>t. name t = k"] by blast
  from sp(3) have "filter (\<lambda>t. name t = k) post = []" by (simp add: filter_empty_conv)
  with sp have la: "last (filter (\<lambda>t. name t = k) ts) = t" by simp
  from sp have notin: "k \<notin> name ` set post" by auto
  have m: "map_of (fold set_timer ts []) k = Some (Num (of_int (timer_ms (time t))))"
    using map_of_fold_last [OF notin sp(2) assms(2), of pre "[]"] sp(1) by simp
  have d: "distinct (map fst (fold set_timer ts []))"
    by (rule distinct_fold_set_timer) simp
  have "k \<in> name ` set ts" using sp(1,2) by auto
  with assms(2) have "k \<in> set (map fst (fold set_timer ts []))"
    unfolding keys_fold_set_timer by simp
  with d have "length (filter (\<lambda>p. fst p = k) (fold set_timer ts [])) = 1"
    by (rule count_key_distinct)
  with m la assms(1) show ?thesis by (simp add: timers_of_serialized)
qed

text \<open>
  Claim C9, at the name \<^verbatim>\<open>__proto__\<close>: the claim has the name in the serialized
  \<^verbatim>\<open>timers\<close> object exactly once. For two samples of that name the code leaves the
  object without any own property: neither assignment creates one.
\<close>

theorem auditRequestSerializer_proto_samples:
  "own_props (get_prop (auditRequestSerializer (Some \<lparr>req_method = ''GET'', url = ''/a'',
       timers = Some [\<lparr>name = ''__proto__'', time = (1, 0)\<rparr>,
                      \<lparr>name = ''__proto__'', time = (2, 0)\<rparr>], req_time = 5\<rparr>)) ''timers'') = [] \<and>
   length (filter (\<lambda>p. fst p = ''__proto__'')
     (own_props (get_prop (auditRequestSerializer (Some \<lparr>req_method = ''GET'', url = ''/a'',
       timers = Some [\<lparr>name = ''__proto__'', time = (1, 0)\<rparr>,
                      \<lparr>name = ''__proto__'', time = (2, 0)\<rparr>], req_time = 5\<rparr>)) ''timers''))) = 0"
  by (simp add: timers_of_serialized set_timer_def)

text \<open>
  Claim C6: a falsy request serializes to \<^verbatim>\<open>false\<close>, and so does a falsy response,
  whatever the options; and for a request whose timers are absent or an empty list,
  the serialized object has a \<^verbatim>\<open>timers\<close> property whose value is the empty object.
\<close>

theorem serializers_absent_input:
  "auditRequestSerializer None = Bool False \<and>
   auditResponseSerializer opts None = Bool False \<and>
   (timers r = None \<or> timers r = Some [] \<longrightarrow>
      has_prop (auditRequestSerializer (Some r)) ''timers'' \<and>
      get_prop (auditRequestSerializer (Some r)) ''timers'' = Obj ObjectProto [])"
  by (auto simp: auditRequestSerializer_def auditResponseSerializer_def has_prop_def)

theorem serializers_absent_input_witness:
  "auditRequestSerializer None = Bool False \<and>
   auditResponseSerializer \<lparr>body = Bool True\<rparr> None = Bool False \<and>
   get_prop (auditRequestSerializer
     (Some \<lparr>req_method = ''GET'', url = ''/a'', timers = None, req_time = 5\<rparr>)) ''timers'' =
       Obj ObjectProto [] \<and>
   get_prop (auditRequestSerializer
     (Some \<lparr>req_method = ''GET'', url = ''/a'', timers = Some [], req_time = 5\<rparr>)) ''timers'' =
       Obj ObjectProto []"
  using serializers_absent_input [of "\<lparr>body = Bool True\<rparr>"
          "\<lparr>req_method = ''GET'', url = ''/a'', timers = None, req_time = 5\<rparr>"]
        serializers_absent_input [of "\<lparr>body = Bool True\<rparr>"
          "\<lparr>req_method = ''GET'', url = ''/a'', timers = Some [], req_time = 5\<rparr>"]
  by simp


section \<open>The response serializer\<close>

text \<open>
  Claim C2, as stated: with body capture disabled the returned object never contains a
  \<^verbatim>\<open>body\<close> field. The serializer returns \<^verbatim>\<open>{statusCode: res.statusCode, body: body}\<close>
  on every path, so the object has the property also when \<^verbatim>\<open>options.body\<close> is
  \<^verbatim>\<open>false\<close>; what it holds then is \<^verbatim>\<open>undefined\<close>.
\<close>

theorem auditResponseSerializer_body_field_counterexample:
  "has_prop (auditResponseSerializer \<lparr>body = Bool False\<rparr>
      (Some \<lparr>statusCode = 200, res_body = Str ''payload'', get = (\<lambda>h. Undefined)\<rparr>)) ''body''"
  by (simp add: auditResponseSerializer_def has_prop_def)

text \<open>
  Claim C2, amended: when \<^verbatim>\<open>options.body\<close> is not \<^verbatim>\<open>true\<close>, the serializer returns
  for every response the object \<^verbatim>\<open>{statusCode: res.statusCode, body: undefined}\<close>: the
  value of its \<^verbatim>\<open>body\<close> property is \<^verbatim>\<open>undefined\<close> whatever the payload of the
  response (and reading \<^verbatim>\<open>body\<close> from the result for a falsy response gives
  \<^verbatim>\<open>undefined\<close> too).
\<close>

theorem auditResponseSerializer_no_capture:
  assumes "body opts \<noteq> Bool True"
  shows "auditResponseSerializer opts (Some r) =
           Obj ObjectProto [(''statusCode'', Num (statusCode r)), (''body'', Undefined)] \<and>
         get_prop (auditResponseSerializer opts res) ''body'' = Undefined"
  using assms by (cases res) (simp_all add: auditResponseSerializer_def)

theorem auditResponseSerializer_no_capture_witness:
  "auditResponseSerializer \<lparr>body = Undefined\<rparr>
      (Some \<lparr>statusCode = 200, res_body = Str ''payload'', get = (\<lambda>h. Undefined)\<rparr>) =
     Obj ObjectProto [(''statusCode'', Num 200), (''body'', Undefined)]"
proof -
  have h: "body \<lparr>body = Undefined\<rparr> \<noteq> Bool True" by simp
  show ?thesis
    using auditResponseSerializer_no_capture [OF h, THEN conjunct1,
      of "\<lparr>statusCode = 200, res_body = Str ''payload'', get = (\<lambda>h. Undefined)\<rparr>"]
    by simp
qed

text \<open>
  Claim C3: with body capture enabled, for a response whose captured body is an
  instance of \<^verbatim>\<open>HttpError\<close> with the payload \<open>p\<close> in its \<^verbatim>\<open>body\<close> property, the
  serialized body is \<open>p\<close>, and it is not the wrapper; for a captured body that is not an
  instance of \<^verbatim>\<open>HttpError\<close>, the serialized body is the captured value itself.
\<close>

theorem auditResponseSerializer_capture:
  assumes "body opts = Bool True"
  shows "(instanceof_HttpError (res_body r) \<and> get_prop (res_body r) ''body'' = p \<longrightarrow>
            get_prop (auditResponseSerializer opts (Some r)) ''body'' = p \<and>
            get_prop (auditResponseSerializer opts (Some r)) ''body'' \<noteq> res_body r) \<and>
         (\<not> instanceof_HttpError (res_body r) \<longrightarrow>
            get_prop (auditResponseSerializer opts (Some r)) ''body'' = res_body r)"
proof -
  have "get_prop (Obj q ps) k \<noteq> Obj q ps" for q ps k
  proof (cases "map_of ps k")
    case None
    then show ?thesis by simp
  next
    case (Some v)
    then have "size v < size (Obj q ps)" by (rule size_prop)
    with Some show ?thesis by auto
  qed
  then have "instanceof_HttpError v \<Longrightarrow> get_prop v k \<noteq> v" for v k
    by (cases v rule: instanceof_HttpError.cases) simp_all
  with assms show ?thesis by (auto simp: auditResponseSerializer_def)
qed

theorem auditResponseSerializer_capture_witness:
  "get_prop (auditResponseSerializer \<lparr>body = Bool True\<rparr>
      (Some \<lparr>statusCode = 404,
             res_body = Obj HttpErrorProto [(''statusCode'', Num 404),
                          (''body'', Obj ObjectProto [(''code'', Str ''X'')])],
             get = (\<lambda>h. Undefined)\<rparr>)) ''body'' = Obj ObjectProto [(''code'', Str ''X'')] \<and>
   get_prop (auditResponseSerializer \<lparr>body = Bool True\<rparr>
      (Some \<lparr>statusCode = 200, res_body = Str ''payload'', get = (\<lambda>h. Undefined)\<rparr>)) ''body'' =
     Str ''payload''"
proof -
  have h: "body \<lparr>body = Bool True\<rparr> = Bool True" by simp
  let ?e = "Obj HttpErrorProto [(''statusCode'', Num 404),
              (''body'', Obj ObjectProto [(''code'', Str ''X'')])]"
  have a: "get_prop (auditResponseSerializer \<lparr>body = Bool True\<rparr>
      (Some \<lparr>statusCode = 404, res_body = ?e, get = (\<lambda>h. Undefined)\<rparr>)) ''body'' =
        Obj ObjectProto [(''code'', Str ''X'')]"
    by (rule auditResponseSerializer_capture [OF h, THEN conjunct1, THEN mp, THEN conjunct1]) simp
  have b: "get_prop (auditResponseSerializer \<lparr>body = Bool True\<rparr>
      (Some \<lparr>statusCode = 200, res_body = Str ''payload'', get = (\<lambda>h. Undefined)\<rparr>)) ''body'' =
        res_body \<lparr>statusCode = 200, res_body = Str ''payload'', get = (\<lambda>h. Undefined)\<rparr>"
    by (rule auditResponseSerializer_capture [OF h, THEN conjunct2, THEN mp]) simp
  from a b show ?thesis by simp
qed

section \<open>The audit callback\<close>

text \<open>
  Claim C5: the latency of the entry that \<^verbatim>\<open>audit\<close> writes is the value of
  \<^verbatim>\<open>res.get('Response-Time')\<close> when that value is a number, and
  \<^verbatim>\<open>Date.now() - req._time\<close> when it is anything else.
\<close>

theorem audit_latency:
  "(get res ''Response-Time'' = Num x \<longrightarrow>
      obj_latency (log_fields (last (snd (audit now req res route err written)))) = Num x) \<and>
   ((\<forall>y. get res ''Response-Time'' \<noteq> Num y) \<longrightarrow>
      obj_latency (log_fields (last (snd (audit now req res route err written)))) =
        Num (now - req_time req))"
  by (auto simp: audit_def Let_def typeof_number)

theorem audit_latency_witness:
  "obj_latency (log_fields (last (snd (audit 1000
      \<lparr>req_method = ''GET'', url = ''/a'', timers = None, req_time = 990\<rparr>
      \<lparr>statusCode = 200, res_body = Undefined,
       get = (\<lambda>h. if h = ''Response-Time'' then Num 7 else Undefined)\<rparr> Undefined Undefined [])))) = Num 7 \<and>
   obj_latency (log_fields (last (snd (audit 1000
      \<lparr>req_method = ''GET'', url = ''/a'', timers = None, req_time = 990\<rparr>
      \<lparr>statusCode = 200, res_body = Undefined,
       get = (\<lambda>h. if h = ''Response-Time'' then Str ''7'' else Undefined)\<rparr> Undefined Undefined [])))) = Num 10"
proof -
  let ?rq = "\<lparr>req_method = ''GET'', url = ''/a'', timers = None, req_time = 990\<rparr>"
  let ?r1 = "\<lparr>statusCode = 200, res_body = Undefined,
       get = (\<lambda>h. if h = ''Response-Time'' then Num 7 else Undefined)\<rparr>"
  let ?r2 = "\<lparr>statusCode = 200, res_body = Undefined,
       get = (\<lambda>h. if h = ''Response-Time'' then Str ''7'' else Undefined)\<rparr>"
  have a: "obj_latency (log_fields (last (snd (audit 1000 ?rq ?r1 Undefined Undefined [])))) = Num 7"
    by (rule audit_latency [THEN conjunct1, THEN mp]) simp
  have "obj_latency (log_fields (last (snd (audit 1000 ?rq ?r2 Undefined Undefined [])))) =
          Num (1000 - req_time ?rq)"
    by (rule audit_latency [THEN conjunct2, THEN mp]) simp
  then have b: "obj_latency (log_fields (last (snd (audit 1000 ?rq ?r2 Undefined Undefined [])))) = Num 10"
    by simp
  from a b show ?thesis by simp
qed




section \<open>Properties of the server bootstrapper\<close>

text \<open>
  Claim C4, as stated: when the three parameters are present, \<^verbatim>\<open>startServer\<close> returns
  the server. The guards test only that the parameters are truthy; the call
  \<^verbatim>\<open>startServer('app', 70000, logger)\<close> passes them, and \<^verbatim>\<open>server.listen(70000)\<close>
  throws a \<^verbatim>\<open>RangeError\<close>, which leaves \<^verbatim>\<open>startServer\<close> in place of the server.
\<close>

theorem startServer_requires_parameters_counterexample:
  "fst (startServer (Str ''app'') (Num 70000) (Obj ObjectProto []) port_checking_world) =
     Inl RangeError"
  by (simp add: startServer_def port_checking_world_def quiet_world_def)

text \<open>
  Claim C4, amended: when one of \<^verbatim>\<open>appName\<close>, \<^verbatim>\<open>port\<close>, \<^verbatim>\<open>logger\<close> is falsy,
  \<^verbatim>\<open>startServer\<close> throws a \<^verbatim>\<open>TypeError\<close> and has had no effect by then: no
  listening socket was requested. When the three are truthy and neither
  \<^verbatim>\<open>createServer\<close> nor \<^verbatim>\<open>listen\<close> throws for them, it returns the server, created with
  this name and this logger, after requesting a listening socket on the port. When
  the three are truthy and one of the two calls throws, \<^verbatim>\<open>startServer\<close> throws that
  exception, again without any effect.
\<close>

theorem startServer_requires_parameters:
  "(\<not> truthy appName \<or> \<not> truthy port \<or> \<not> truthy logger \<longrightarrow>
      (\<exists>msg. startServer appName port logger w = (Inl (TypeError msg), w))) \<and>
   (truthy appName \<and> truthy port \<and> truthy logger \<and>
    createServer_throws w appName logger = None \<and> listen_throws w port = None \<longrightarrow>
      (\<exists>srv w'. startServer appName port logger w = (Inr srv, w') \<and>
         srv_name srv = appName \<and> srv_log srv = logger \<and>
         trace w' = trace w @ [Listen port])) \<and>
   (truthy appName \<and> truthy port \<and> truthy logger \<and>
    (createServer_throws w appName logger = Some e \<or>
     createServer_throws w appName logger = None \<and> listen_throws w port = Some e) \<longrightarrow>
      startServer appName port logger w = (Inl e, w))"
proof (intro conjI impI)
  assume "\<not> truthy appName \<or> \<not> truthy port \<or> \<not> truthy logger"
  then show "\<exists>msg. startServer appName port logger w = (Inl (TypeError msg), w)"
    by (auto simp: startServer_def)
next
  assume "truthy appName \<and> truthy port \<and> truthy logger \<and>
    createServer_throws w appName logger = None \<and> listen_throws w port = None"
  then show "\<exists>srv w'. startServer appName port logger w = (Inr srv, w') \<and>
         srv_name srv = appName \<and> srv_log srv = logger \<and>
         trace w' = trace w @ [Listen port]"
    by (simp add: startServer_ok)
next
  assume "truthy appName \<and> truthy port \<and> truthy logger \<and>
    (createServer_throws w appName logger = Some e \<or>
     createServer_throws w appName logger = None \<and> listen_throws w port = Some e)"
  then show "startServer appName port logger w = (Inl e, w)"
    by (auto simp: startServer_def)
qed

theorem startServer_requires_parameters_witness:
  "(\<exists>msg. startServer (Str ''app'') (Num 0) (Obj ObjectProto []) quiet_world =
      (Inl (TypeError msg), quiet_world)) \<and>
   (\<exists>srv w'. startServer (Str ''app'') (Num 8080) (Obj ObjectProto []) quiet_world = (Inr srv, w') \<and>
      trace w' = [Listen (Num 8080)]) \<and>
   startServer (Str ''app'') (Num 70000) (Obj ObjectProto []) port_checking_world =
      (Inl RangeError, port_checking_world)"
proof -
  have a: "\<exists>msg. startServer (Str ''app'') (Num 0) (Obj ObjectProto []) quiet_world =
      (Inl (TypeError msg), quiet_world)"
    by (rule startServer_requires_parameters [THEN conjunct1, THEN mp]) simp
  have "\<exists>srv w'. startServer (Str ''app'') (Num 8080) (Obj ObjectProto []) quiet_world =
      (Inr srv, w') \<and>
      srv_name srv = Str ''app'' \<and> srv_log srv = Obj ObjectProto [] \<and>
      trace w' = trace quiet_world @ [Listen (Num 8080)]"
    by (rule startServer_requires_parameters [THEN conjunct2, THEN conjunct1, THEN mp])
      (simp add: quiet_world_def)
  then have b: "\<exists>srv w'. startServer (Str ''app'') (Num 8080) (Obj ObjectProto []) quiet_world =
      (Inr srv, w') \<and> trace w' = [Listen (Num 8080)]"
    by (auto simp: quiet_world_def)
  have c: "startServer (Str ''app'') (Num 70000) (Obj ObjectProto []) port_checking_world =
      (Inl RangeError, port_checking_world)"
    by (rule startServer_requires_parameters [THEN conjunct2, THEN conjunct2, THEN mp])
      (simp add: port_checking_world_def quiet_world_def)
  from a b c show ?thesis by (intro conjI)
qed

text \<open>
  Claim C10: \<^verbatim>\<open>startServer\<close> tests \<^verbatim>\<open>appName\<close>, then \<^verbatim>\<open>logger\<close>, then \<^verbatim>\<open>port\<close>.
  The error thrown is the \<^verbatim>\<open>TypeError\<close> whose message names the first falsy
  parameter in this order, whatever the parameters after it are.
\<close>

theorem startServer_validation_order:
  "(\<not> truthy appName \<longrightarrow>
      fst (startServer appName port logger w) =
        Inl (TypeError ''Require parameter appName in startServer(appName,port,logger)'')) \<and>
   (truthy appName \<and> \<not> truthy logger \<longrightarrow>
      fst (startServer appName port logger w) =
        Inl (TypeError ''Require parameter logger in startServer(appName,port,logger)'')) \<and>
   (truthy appName \<and> truthy logger \<and> \<not> truthy port \<longrightarrow>
      fst (startServer appName port logger w) =
        Inl (TypeError ''Require parameter port in startServer(appName,port,logger)''))"
  by (simp add: startServer_def)

theorem startServer_validation_order_witness:
  "fst (startServer (Str []) (Num 0) Undefined \<lparr>trace = [], process_on = [],
    createServer_throws = (\<lambda>nm lg. None), listen_throws = (\<lambda>p. None)\<rparr>) =
     Inl (TypeError ''Require parameter appName in startServer(appName,port,logger)'') \<and>
   fst (startServer (Str ''app'') (Num 0) Undefined \<lparr>trace = [], process_on = [],
    createServer_throws = (\<lambda>nm lg. None), listen_throws = (\<lambda>p. None)\<rparr>) =
     Inl (TypeError ''Require parameter logger in startServer(appName,port,logger)'') \<and>
   fst (startServer (Str ''app'') (Num 0) (Obj ObjectProto []) \<lparr>trace = [], process_on = [],
    createServer_throws = (\<lambda>nm lg. None), listen_throws = (\<lambda>p. None)\<rparr>) =
     Inl (TypeError ''Require parameter port in startServer(appName,port,logger)'')"
proof -
  let ?w = "\<lparr>trace = [], process_on = [],
    createServer_throws = (\<lambda>nm lg. None), listen_throws = (\<lambda>p. None)\<rparr>"
  have a: "fst (startServer (Str []) (Num 0) Undefined ?w) =
     Inl (TypeError ''Require parameter appName in startServer(appName,port,logger)'')"
    by (rule startServer_validation_order [THEN conjunct1, THEN mp]) simp
  have b: "fst (startServer (Str ''app'') (Num 0) Undefined ?w) =
     Inl (TypeError ''Require parameter logger in startServer(appName,port,logger)'')"
    by (rule startServer_validation_order [THEN conjunct2, THEN conjunct1, THEN mp]) simp
  have c: "fst (startServer (Str ''app'') (Num 0) (Obj ObjectProto []) ?w) =
     Inl (TypeError ''Require parameter port in startServer(appName,port,logger)'')"
    by (rule startServer_validation_order [THEN conjunct2, THEN conjunct2, THEN mp]) simp
  from a b c show ?thesis by (intro conjI)
qed


text \<open>
  Claim C8, for an exception during request processing: the claim has the handler of
  the server write it at level error and send it to the client, the process going on.
  \<^verbatim>\<open>startServer\<close> registers that handler, but creates the server without
  \<^verbatim>\<open>handleUncaughtExceptions\<close>, so the framework never calls it: when a route handler of
  the returned server throws, in a process with no earlier listener for
  \<^verbatim>\<open>uncaughtException\<close>, the exception goes to \<^verbatim>\<open>processUncaughtExp\<close>, which writes it
  at level fatal and exits with the code 1. Nothing is sent to the client.
\<close>

theorem startServer_handler_exception:
  assumes "startServer appName port logger w = (Inr srv, w')"
    and "filter (\<lambda>p. fst p = ''uncaughtException'') (process_on w) = []"
  shows "handler_throws srv w' (req, res, route, err) =
           Some [Logged logger \<lparr>level = Fatal, log_fields = Some err,
                   format = ''Uncaught fatal exception, process will exit now.'', args = []\<rparr>,
                 Exit 1] \<and>
         (''uncaughtException'', serverUncaughtExp logger) \<in> set (listeners srv)"
proof -
  note t = startServer_Inr [OF assms(1)]
  from t have ok: "startServer appName port logger w =
     (Inr \<lparr>srv_name = appName, srv_log = logger, handleUncaughtExceptions = False,
           listen_callbacks = [listenCallback logger],
           pre_chain = [CorsPreflight],
           use_chain = [CorsActual, AcceptParser, QueryParser True, BodyParser True],
           routes = [(''GET'', ''/_status''), (''GET'', ''/api/admin/_routes'')],
           listeners = [(''uncaughtException'', serverUncaughtExp logger)]\<rparr>,
      w\<lparr>trace := trace w @ [Listen port],
        process_on := process_on w @ [(''uncaughtException'', processUncaughtExp logger)]\<rparr>)"
    by (intro startServer_ok) simp_all
  from assms(1) [unfolded ok] have
    srv: "handleUncaughtExceptions srv = False"
         "listeners srv = [(''uncaughtException'', serverUncaughtExp logger)]" and
    w': "process_on w' = process_on w @ [(''uncaughtException'', processUncaughtExp logger)]"
    by auto
  show ?thesis
    using assms(2)
    by (simp add: handler_throws_def process_uncaughtException_def srv w' processUncaughtExp_def)
qed

theorem startServer_handler_exception_witness:
  "handler_throws
     (projr (fst (startServer (Str ''app'') (Num 8080) (Obj ObjectProto []) quiet_world)))
     (snd (startServer (Str ''app'') (Num 8080) (Obj ObjectProto []) quiet_world))
     (\<lparr>req_method = ''GET'', url = ''/a'', timers = None, req_time = 990\<rparr>,
      \<lparr>statusCode = 200, res_body = Undefined, get = (\<lambda>h. Undefined)\<rparr>,
      Undefined, Str ''boom'') =
   Some [Logged (Obj ObjectProto []) \<lparr>level = Fatal, log_fields = Some (Str ''boom''),
           format = ''Uncaught fatal exception, process will exit now.'', args = []\<rparr>,
         Exit 1]"
proof -
  let ?lg = "Obj ObjectProto []"
  obtain srv w' where s: "startServer (Str ''app'') (Num 8080) ?lg quiet_world = (Inr srv, w')"
    by (simp add: startServer_ok quiet_world_def)
  have n: "filter (\<lambda>p. fst p = ''uncaughtException'') (process_on quiet_world) = []"
    by (simp add: quiet_world_def)
  from startServer_handler_exception [OF s n, THEN conjunct1] s show ?thesis by simp
qed

end
